theory Spec2Isabelle
  imports Main "HOL-Library.Sublist"
begin

section \<open>Data model of \<open>tavus.py\<close>\<close>

text \<open>
  The dataclasses of the source become records. Field names carry a prefix, since several
  classes share the Python names \<open>id\<close> and \<open>text\<close>.
\<close>

record FlashCard =
  fc_id :: string
  fc_question :: string
  fc_answer :: string
  fc_is_flipped :: bool

record QuizAnswer =
  qa_id :: string
  qa_text :: string
  qa_is_correct :: bool

record QuizQuestion =
  qq_id :: string
  qq_text :: string
  qq_answers :: "QuizAnswer list"

record Quiz =
  quiz_id :: string
  quiz_questions :: "QuizQuestion list"

text \<open>The typed dictionaries \<open>QuizAnswerDict\<close> and \<open>QuizQuestionDict\<close> (all keys required).\<close>

record QuizAnswerDict =
  ad_text :: string
  ad_is_correct :: bool

record QuizQuestionDict =
  qd_text :: string
  qd_answers :: "QuizAnswerDict list"

text \<open>
  The part of \<open>JobContext\<close> the program reads: \<open>ctx.room\<close> (possibly falsy) and the room's
  \<open>remote_participants\<close>, a dictionary whose values are listed in iteration order, each
  participant given by its \<open>identity\<close>.
\<close>

record Room =
  remote_participants :: "string list"

record JobContext =
  room :: "Room option"

record UserData =
  ctx :: "JobContext option"
  flash_cards :: "FlashCard list"
  quizzes :: "Quiz list"

subsection \<open>Dynamic values\<close>

text \<open>
  Values decoded by \<open>json.loads\<close> and values handed to \<open>json.dumps\<close>. A finite float is its
  mantissa and exponent; \<open>JNonFinite\<close> stands for NaN and the infinities. A dictionary is an
  association list read with \<open>map_of\<close>.
\<close>

datatype json =
    JNull
  | JBool bool
  | JInt int
  | JFloat int int
  | JNonFinite
  | JStr string
  | JArr "json list"
  | JObj "(string \<times> json) list"

text \<open>Python truthiness (\<open>if v:\<close>, \<open>not v\<close>).\<close>

fun truthy :: "json \<Rightarrow> bool" where
  "truthy JNull = False"
| "truthy (JBool b) = b"
| "truthy (JInt i) = (i \<noteq> 0)"
| "truthy (JFloat m e) = (m \<noteq> 0)"
| "truthy JNonFinite = True"
| "truthy (JStr s) = (s \<noteq> [])"
| "truthy (JArr xs) = (xs \<noteq> [])"
| "truthy (JObj kv) = (kv \<noteq> [])"

fun type_name :: "json \<Rightarrow> string" where
  "type_name JNull = ''NoneType''"
| "type_name (JBool b) = ''bool''"
| "type_name (JInt i) = ''int''"
| "type_name (JFloat m e) = ''float''"
| "type_name JNonFinite = ''float''"
| "type_name (JStr s) = ''str''"
| "type_name (JArr xs) = ''list''"
| "type_name (JObj kv) = ''dict''"

text \<open>
  Exceptions are values. \<open>str_of_error\<close> is Python's \<open>str(e)\<close>. \<open>Raised\<close> is any exception
  an external call raised, with its message.
\<close>

datatype py_error =
    JSONDecodeError string
  | AttributeError string
  | Raised string

fun str_of_error :: "py_error \<Rightarrow> string" where
  "str_of_error (JSONDecodeError m) = m"
| "str_of_error (AttributeError m) = m"
| "str_of_error (Raised m) = m"

definition quoted :: "string \<Rightarrow> string" where
  "quoted s = [CHR 0x27] @ s @ [CHR 0x27]"

definition no_attribute :: "string \<Rightarrow> string \<Rightarrow> py_error" where
  "no_attribute ty attr =
     AttributeError (quoted ty @ '' object has no attribute '' @ quoted attr)"

text \<open>
  \<open>v.get(k, d)\<close>: \<open>dict.get\<close> on a dictionary, an \<open>AttributeError\<close> on every other value.
\<close>

definition dict_get :: "(string \<times> json) list \<Rightarrow> string \<Rightarrow> json \<Rightarrow> json" where
  "dict_get kv k d = (case map_of kv k of None \<Rightarrow> d | Some x \<Rightarrow> x)"

definition py_get :: "json \<Rightarrow> string \<Rightarrow> json \<Rightarrow> py_error + json" where
  "py_get v k d =
     (case v of
        JObj kv \<Rightarrow> Inr (dict_get kv k d)
      | _ \<Rightarrow> Inl (no_attribute (type_name v) ''get''))"

subsection \<open>The environment and the session state\<close>

text \<open>
  What the program calls and does not define is a parameter: \<open>uuid4 E n\<close> is the string of
  the \<open>n\<close>-th \<open>uuid.uuid4()\<close> of the session, \<open>json_loads\<close> and \<open>json_dumps\<close> are the \<open>json\<close>
  module (\<open>Inl m\<close>: a \<open>JSONDecodeError\<close> with message \<open>m\<close>), \<open>perform_rpc\<close> and \<open>session_say\<close>
  answer \<open>None\<close> when the call returns and \<open>Some e\<close> when it raises \<open>e\<close>.
\<close>

record rpc_call =
  destination_identity :: string
  rpc_method :: string
  rpc_payload :: string

record env =
  uuid4 :: "nat \<Rightarrow> string"
  json_loads :: "string \<Rightarrow> string + json"
  json_dumps :: "json \<Rightarrow> string"
  perform_rpc :: "rpc_call \<Rightarrow> py_error option"
  session_say :: "string \<Rightarrow> py_error option"

text \<open>
  The session: the \<open>UserData\<close> object, the number of \<open>uuid4\<close> calls made so far, and the
  traces of the outbound calls and of the texts handed to \<open>session.say\<close>. Logging is left
  out: it changes neither a result nor the store.
\<close>

record world =
  userdata :: UserData
  uuid_calls :: nat
  rpc_log :: "rpc_call list"
  say_log :: "string list"

section \<open>\<open>UserData\<close>: the record store\<close>

definition add_flash_card :: "env \<Rightarrow> string \<Rightarrow> string \<Rightarrow> world \<Rightarrow> FlashCard \<times> world" where
  "add_flash_card E question answer w =
     (let fc = \<lparr>fc_id = uuid4 E (uuid_calls w), fc_question = question,
                fc_answer = answer, fc_is_flipped = False\<rparr>;
          ud = userdata w
      in (fc, w\<lparr>userdata := ud\<lparr>flash_cards := flash_cards ud @ [fc]\<rparr>,
                   uuid_calls := Suc (uuid_calls w)\<rparr>))"

text \<open>
  \<open>get_flash_card\<close> returns a reference to the first card whose id equals \<open>card_id\<close>. A card
  object lives at one position of the list, so the reference is that position.
\<close>

fun find_flash_card :: "FlashCard list \<Rightarrow> json \<Rightarrow> nat option" where
  "find_flash_card [] card_id = None"
| "find_flash_card (fc # rest) card_id =
     (if JStr (fc_id fc) = card_id then Some 0
      else map_option Suc (find_flash_card rest card_id))"

definition get_flash_card :: "UserData \<Rightarrow> json \<Rightarrow> FlashCard option" where
  "get_flash_card ud card_id =
     map_option (\<lambda>i. flash_cards ud ! i) (find_flash_card (flash_cards ud) card_id)"

definition flip_flash_card :: "UserData \<Rightarrow> json \<Rightarrow> FlashCard option \<times> UserData" where
  "flip_flash_card ud card_id =
     (case find_flash_card (flash_cards ud) card_id of
        Some i \<Rightarrow>
          (let fc = (flash_cards ud ! i)\<lparr>fc_is_flipped := \<not> fc_is_flipped (flash_cards ud ! i)\<rparr>
           in (Some fc, ud\<lparr>flash_cards := (flash_cards ud)[i := fc]\<rparr>))
      | None \<Rightarrow> (None, ud))"

text \<open>\<open>add_quiz\<close>: one \<open>uuid4\<close> per answer, then one for their question, the quiz's last.\<close>

fun mk_answers :: "env \<Rightarrow> QuizAnswerDict list \<Rightarrow> nat \<Rightarrow> QuizAnswer list \<times> nat" where
  "mk_answers E [] n = ([], n)"
| "mk_answers E (a # as) n =
     (let ans = \<lparr>qa_id = uuid4 E n, qa_text = ad_text a, qa_is_correct = ad_is_correct a\<rparr>;
          (rest, n') = mk_answers E as (Suc n)
      in (ans # rest, n'))"

fun mk_questions :: "env \<Rightarrow> QuizQuestionDict list \<Rightarrow> nat \<Rightarrow> QuizQuestion list \<times> nat" where
  "mk_questions E [] n = ([], n)"
| "mk_questions E (q # qs) n =
     (let (answers, n1) = mk_answers E (qd_answers q) n;
          question = \<lparr>qq_id = uuid4 E n1, qq_text = qd_text q, qq_answers = answers\<rparr>;
          (rest, n2) = mk_questions E qs (Suc n1)
      in (question # rest, n2))"

definition add_quiz :: "env \<Rightarrow> QuizQuestionDict list \<Rightarrow> world \<Rightarrow> Quiz \<times> world" where
  "add_quiz E questions w =
     (let (qs, n) = mk_questions E questions (uuid_calls w);
          quiz = \<lparr>quiz_id = uuid4 E n, quiz_questions = qs\<rparr>;
          ud = userdata w
      in (quiz, w\<lparr>userdata := ud\<lparr>quizzes := quizzes ud @ [quiz]\<rparr>, uuid_calls := Suc n\<rparr>))"

fun find_quiz :: "Quiz list \<Rightarrow> json \<Rightarrow> Quiz option" where
  "find_quiz [] qid = None"
| "find_quiz (quiz # rest) qid =
     (if JStr (quiz_id quiz) = qid then Some quiz else find_quiz rest qid)"

definition get_quiz :: "UserData \<Rightarrow> json \<Rightarrow> Quiz option" where
  "get_quiz ud qid = find_quiz (quizzes ud) qid"

text \<open>
  The inner loop of \<open>check_quiz_answers\<close>: the last answer whose id equals the chosen id, and
  the last answer flagged correct.
\<close>

fun scan_answers ::
  "QuizAnswer list \<Rightarrow> json \<Rightarrow> QuizAnswer option \<times> QuizAnswer option
     \<Rightarrow> QuizAnswer option \<times> QuizAnswer option" where
  "scan_answers [] user_answer_id acc = acc"
| "scan_answers (answer # rest) user_answer_id (selected_answer, correct_answer) =
     scan_answers rest user_answer_id
       (if JStr (qa_id answer) = user_answer_id then Some answer else selected_answer,
        if qa_is_correct answer then Some answer else correct_answer)"

text \<open>
  A result tuple. \<open>selected_answer and selected_answer.is_correct\<close> is \<open>None\<close> or a boolean in
  Python and only ever tested for truth, so it is kept as its truth value.
\<close>

type_synonym quiz_result = "QuizQuestion \<times> QuizAnswer option \<times> QuizAnswer option \<times> bool"

definition check_question :: "QuizQuestion \<Rightarrow> json \<Rightarrow> quiz_result" where
  "check_question question user_answer_id =
     (let (selected_answer, correct_answer) =
            scan_answers (qq_answers question) user_answer_id (None, None);
          is_correct = (case selected_answer of None \<Rightarrow> False | Some a \<Rightarrow> qa_is_correct a)
      in (question, selected_answer, correct_answer, is_correct))"

fun check_questions :: "QuizQuestion list \<Rightarrow> json \<Rightarrow> py_error + quiz_result list" where
  "check_questions [] user_answers = Inr []"
| "check_questions (question # rest) user_answers =
     (case py_get user_answers (qq_id question) JNull of
        Inl e \<Rightarrow> Inl e
      | Inr user_answer_id \<Rightarrow>
          (case check_questions rest user_answers of
             Inl e \<Rightarrow> Inl e
           | Inr results \<Rightarrow> Inr (check_question question user_answer_id # results)))"

definition check_quiz_answers :: "UserData \<Rightarrow> json \<Rightarrow> json \<Rightarrow> py_error + quiz_result list" where
  "check_quiz_answers ud qid user_answers =
     (case get_quiz ud qid of
        None \<Rightarrow> Inr []
      | Some quiz \<Rightarrow> check_questions (quiz_questions quiz) user_answers)"

section \<open>\<open>AvatarAgent\<close>: the tools that notify the client\<close>

text \<open>Decimal digits of a natural number (\<open>str\<close> of a non-negative \<open>int\<close>) and \<open>sep.join\<close>.\<close>

fun str_of_nat :: "nat \<Rightarrow> string" where
  "str_of_nat n =
     (if n < 10 then [''0123456789'' ! n]
      else str_of_nat (n div 10) @ [''0123456789'' ! (n mod 10)])"

declare str_of_nat.simps [simp del]

fun join :: "string \<Rightarrow> string list \<Rightarrow> string" where
  "join sep [] = []"
| "join sep [x] = x"
| "join sep (x # y # ys) = x @ sep @ join sep (y # ys)"

definition flash_card_payload :: "FlashCard \<Rightarrow> UserData \<Rightarrow> json" where
  "flash_card_payload fc ud =
     JObj [(''action'', JStr ''show''),
           (''id'', JStr (fc_id fc)),
           (''question'', JStr (fc_question fc)),
           (''answer'', JStr (fc_answer fc)),
           (''index'', JInt (int (length (flash_cards ud)) - 1))]"

text \<open>
  \<open>room.local_participant.perform_rpc\<close>: the call is recorded, then it returns or raises as
  the environment says.
\<close>

definition send_rpc :: "env \<Rightarrow> string \<Rightarrow> string \<Rightarrow> json \<Rightarrow> world \<Rightarrow> py_error option \<times> world" where
  "send_rpc E identity method payload w =
     (let call = \<lparr>destination_identity = identity, rpc_method = method,
                   rpc_payload = json_dumps E payload\<rparr>
      in (perform_rpc E call, w\<lparr>rpc_log := rpc_log w @ [call]\<rparr>))"

text \<open>
  The tools read the room from \<open>userdata.ctx\<close> and address the first remote participant.
  \<open>next(iter(participants.values()), None)\<close> on a non-empty dictionary is its first value, and a
  participant object is truthy, so the source's third early return cannot be taken and the
  two tests on the participants are one case distinction here.
\<close>

definition create_flash_card ::
  "env \<Rightarrow> string \<Rightarrow> string \<Rightarrow> world \<Rightarrow> (py_error + string) \<times> world" where
  "create_flash_card E question answer w0 =
     (let (fc, w) = add_flash_card E question answer w0;
          ud = userdata w
      in case ctx ud of
           None \<Rightarrow> (Inr ''Created a flash card, but couldn't access the room to send it.'', w)
         | Some jc \<Rightarrow>
        (case room jc of
           None \<Rightarrow> (Inr ''Created a flash card, but couldn't access the room to send it.'', w)
         | Some rm \<Rightarrow>
        (case remote_participants rm of
           [] \<Rightarrow> (Inr ''Created a flash card, but no participants found to send it to.'', w)
         | participant # others \<Rightarrow>
             (case send_rpc E participant ''client.flashcard'' (flash_card_payload fc ud) w of
                (Some e, w') \<Rightarrow> (Inl e, w')
              | (None, w') \<Rightarrow>
                  (Inr (''I've created a flash card with the question: '' @ quoted question), w')))))"

text \<open>The quiz as the client receives it: ids and texts only.\<close>

definition client_answer :: "QuizAnswer \<Rightarrow> json" where
  "client_answer a = JObj [(''id'', JStr (qa_id a)), (''text'', JStr (qa_text a))]"

definition client_question :: "QuizQuestion \<Rightarrow> json" where
  "client_question q =
     JObj [(''id'', JStr (qq_id q)),
           (''text'', JStr (qq_text q)),
           (''answers'', JArr (map client_answer (qq_answers q)))]"

definition quiz_payload :: "Quiz \<Rightarrow> json" where
  "quiz_payload quiz =
     JObj [(''action'', JStr ''show''),
           (''id'', JStr (quiz_id quiz)),
           (''questions'', JArr (map client_question (quiz_questions quiz)))]"

definition create_quiz ::
  "env \<Rightarrow> QuizQuestionDict list \<Rightarrow> world \<Rightarrow> (py_error + string) \<times> world" where
  "create_quiz E questions w0 =
     (let (quiz, w) = add_quiz E questions w0;
          ud = userdata w
      in case ctx ud of
           None \<Rightarrow> (Inr ''Created a quiz, but couldn't access the room to send it.'', w)
         | Some jc \<Rightarrow>
        (case room jc of
           None \<Rightarrow> (Inr ''Created a quiz, but couldn't access the room to send it.'', w)
         | Some rm \<Rightarrow>
        (case remote_participants rm of
           [] \<Rightarrow> (Inr ''Created a quiz, but no participants found to send it to.'', w)
         | participant # others \<Rightarrow>
             (case send_rpc E participant ''client.quiz'' (quiz_payload quiz) w of
                (Some e, w') \<Rightarrow> (Inl e, w')
              | (None, w') \<Rightarrow>
                  (Inr (''I've created a quiz with '' @ str_of_nat (length questions)
                        @ '' questions. Please answer them when you're ready.''), w')))))"

section \<open>The inbound handler \<open>agent.submitQuiz\<close>\<close>

text \<open>The check mark and the ballot cross of the feedback lines, as their UTF-8 bytes.\<close>

definition check_mark :: string where
  "check_mark = [CHR 0xE2, CHR 0x9C, CHR 0x93]"

definition ballot_x :: string where
  "ballot_x = [CHR 0xE2, CHR 0x9C, CHR 0x97]"

definition feedback_correct :: "QuizQuestion \<Rightarrow> QuizAnswer \<Rightarrow> string" where
  "feedback_correct question selected_answer =
     ''Question: '' @ qq_text question @ [CHR 0x0A] @ ''Your answer: ''
       @ qa_text selected_answer @ '' '' @ check_mark @ '' Correct!''"

definition feedback_incorrect :: "QuizQuestion \<Rightarrow> QuizAnswer option \<Rightarrow> QuizAnswer \<Rightarrow> string" where
  "feedback_incorrect question selected_answer correct_answer =
     ''Question: '' @ qq_text question @ [CHR 0x0A] @ ''Your answer: ''
       @ (case selected_answer of Some a \<Rightarrow> qa_text a | None \<Rightarrow> ''None'')
       @ '' '' @ ballot_x @ '' Incorrect. The correct answer is: '' @ qa_text correct_answer"

text \<open>
  One iteration of the feedback loop. Reading \<open>.text\<close> of an absent answer raises; for a wrong
  answer the flash card is added first and then sent to the first remote participant of
  \<open>ctx.room\<close>, if there is one. \<open>jc\<close> is the \<open>ctx\<close> of \<open>entrypoint\<close>.
\<close>

definition feedback_step ::
  "env \<Rightarrow> JobContext \<Rightarrow> quiz_result \<Rightarrow> world \<Rightarrow> (py_error + string) \<times> world" where
  "feedback_step E jc r w =
     (case r of (question, selected_answer, correct_answer, is_correct) \<Rightarrow>
        if is_correct then
          (case selected_answer of
             None \<Rightarrow> (Inl (no_attribute ''NoneType'' ''text''), w)
           | Some a \<Rightarrow> (Inr (feedback_correct question a), w))
        else
          (case correct_answer of
             None \<Rightarrow> (Inl (no_attribute ''NoneType'' ''text''), w)
           | Some c \<Rightarrow>
               (let feedback = feedback_incorrect question selected_answer c;
                    (fc, w1) = add_flash_card E (qq_text question) (qa_text c) w
                in case room jc of
                     None \<Rightarrow> (Inl (no_attribute ''NoneType'' ''remote_participants''), w1)
                   | Some rm \<Rightarrow>
                       (case remote_participants rm of
                          [] \<Rightarrow> (Inr feedback, w1)
                        | participant # others \<Rightarrow>
                            (case send_rpc E participant ''client.flashcard''
                                    (flash_card_payload fc (userdata w1)) w1 of
                               (Some e, w2) \<Rightarrow> (Inl e, w2)
                             | (None, w2) \<Rightarrow> (Inr feedback, w2))))))"

fun feedback_loop ::
  "env \<Rightarrow> JobContext \<Rightarrow> quiz_result list \<Rightarrow> world \<Rightarrow> (py_error + string list) \<times> world" where
  "feedback_loop E jc [] w = (Inr [], w)"
| "feedback_loop E jc (r # rest) w =
     (case feedback_step E jc r w of
        (Inl e, w1) \<Rightarrow> (Inl e, w1)
      | (Inr feedback, w1) \<Rightarrow>
          (case feedback_loop E jc rest w1 of
             (Inl e, w2) \<Rightarrow> (Inl e, w2)
           | (Inr feedback_details, w2) \<Rightarrow> (Inr (feedback # feedback_details), w2)))"

definition result_summary :: "quiz_result list \<Rightarrow> string" where
  "result_summary quiz_results =
     ''You got '' @ str_of_nat (length (filter (\<lambda>(q, s, c, is_correct). is_correct) quiz_results))
       @ '' out of '' @ str_of_nat (length quiz_results) @ '' questions correct.''"

text \<open>The body of the \<open>try\<close> block: \<open>Inl e\<close> when it raises \<open>e\<close>.\<close>

definition submit_quiz_body ::
  "env \<Rightarrow> JobContext \<Rightarrow> string \<Rightarrow> world \<Rightarrow> (py_error + string) \<times> world" where
  "submit_quiz_body E jc payload_str w =
     (case json_loads E payload_str of
        Inl m \<Rightarrow> (Inl (JSONDecodeError m), w)
      | Inr payload_data \<Rightarrow>
     (case py_get payload_data ''id'' JNull of
        Inl e \<Rightarrow> (Inl e, w)
      | Inr qid \<Rightarrow>
     (case py_get payload_data ''answers'' (JObj []) of
        Inl e \<Rightarrow> (Inl e, w)
      | Inr user_answers \<Rightarrow>
          if \<not> truthy qid then (Inr ''error: No quiz ID found in payload'', w)
          else
     (case check_quiz_answers (userdata w) qid user_answers of
        Inl e \<Rightarrow> (Inl e, w)
      | Inr quiz_results \<Rightarrow>
          if quiz_results = [] then (Inr ''error: Quiz not found'', w)
          else
     (case feedback_loop E jc quiz_results w of
        (Inl e, w1) \<Rightarrow> (Inl e, w1)
      | (Inr feedback_details, w1) \<Rightarrow>
          (let detailed_feedback = join [CHR 0x0A, CHR 0x0A] feedback_details;
               full_response = result_summary quiz_results @ [CHR 0x0A, CHR 0x0A] @ detailed_feedback;
               w2 = w1\<lparr>say_log := say_log w1 @ [full_response]\<rparr>
           in case session_say E full_response of
                Some e \<Rightarrow> (Inl e, w2)
              | None \<Rightarrow> (Inr ''success'', w2)))))))"

text \<open>
  The handler: both \<open>except\<close> clauses turn the exception into the string \<open>error: \<close> followed
  by its message.
\<close>

definition handle_submit_quiz ::
  "env \<Rightarrow> JobContext \<Rightarrow> string \<Rightarrow> world \<Rightarrow> (py_error + string) \<times> world" where
  "handle_submit_quiz E jc payload_str w =
     (case submit_quiz_body E jc payload_str w of
        (Inl e, w') \<Rightarrow> (Inr (''error: '' @ str_of_error e), w')
      | (Inr reply, w') \<Rightarrow> (Inr reply, w'))"

section \<open>The record store as a state machine\<close>

text \<open>
  The six operations of \<open>UserData\<close>, and the session after one of them has run. The three
  lookups return a value and assign nothing.
\<close>

datatype store_op =
    AddFlashCard string string
  | GetFlashCard json
  | FlipFlashCard json
  | AddQuiz "QuizQuestionDict list"
  | GetQuiz json
  | CheckQuizAnswers json json

fun store_step :: "env \<Rightarrow> world \<Rightarrow> store_op \<Rightarrow> world" where
  "store_step E w (AddFlashCard question answer) = snd (add_flash_card E question answer w)"
| "store_step E w (GetFlashCard card_id) = w"
| "store_step E w (FlipFlashCard card_id) =
     w\<lparr>userdata := snd (flip_flash_card (userdata w) card_id)\<rparr>"
| "store_step E w (AddQuiz questions) = snd (add_quiz E questions w)"
| "store_step E w (GetQuiz qid) = w"
| "store_step E w (CheckQuizAnswers qid user_answers) = w"

definition unflipped :: "FlashCard \<Rightarrow> FlashCard" where
  "unflipped fc = fc\<lparr>fc_is_flipped := False\<rparr>"

text \<open>
  The store only grows: the old quizzes are a prefix of the new ones, and so are the old
  flash cards, up to their \<open>is_flipped\<close> flags.
\<close>

definition store_grows :: "UserData \<Rightarrow> UserData \<Rightarrow> bool" where
  "store_grows ud ud' \<longleftrightarrow>
     ctx ud' = ctx ud \<and>
     prefix (quizzes ud) (quizzes ud') \<and>
     prefix (map unflipped (flash_cards ud)) (map unflipped (flash_cards ud'))"

text \<open>All identifiers of a quiz, in the order \<open>add_quiz\<close> draws them.\<close>

definition question_ids :: "QuizQuestion \<Rightarrow> string list" where
  "question_ids q = map qa_id (qq_answers q) @ [qq_id q]"

definition quiz_ids :: "Quiz \<Rightarrow> string list" where
  "quiz_ids quiz = concat (map question_ids (quiz_questions quiz)) @ [quiz_id quiz]"

text \<open>No room, or a room without a remote participant, at \<open>userdata.ctx\<close>.\<close>

definition no_peer :: "UserData \<Rightarrow> bool" where
  "no_peer ud =
     (case ctx ud of
        None \<Rightarrow> True
      | Some jc \<Rightarrow> (case room jc of None \<Rightarrow> True | Some rm \<Rightarrow> remote_participants rm = []))"

text \<open>
  Two quizzes differ only in their \<open>is_correct\<close> flags when clearing the flags makes them
  equal; two inputs of \<open>add_quiz\<close> do when they have the same texts in the same places.
\<close>

definition clear_correct :: "Quiz \<Rightarrow> Quiz" where
  "clear_correct quiz =
     quiz\<lparr>quiz_questions :=
       map (\<lambda>q. q\<lparr>qq_answers := map (\<lambda>a. a\<lparr>qa_is_correct := False\<rparr>) (qq_answers q)\<rparr>)
         (quiz_questions quiz)\<rparr>"

definition dict_texts :: "QuizQuestionDict list \<Rightarrow> (string \<times> string list) list" where
  "dict_texts questions = map (\<lambda>q. (qd_text q, map ad_text (qd_answers q))) questions"

section \<open>Example sessions\<close>

text \<open>
  A quiz of two questions, the first option of the first and the second option of the
  second flagged correct, and a quiz whose only question has no option flagged correct.
\<close>

definition ex_a1 :: QuizAnswer where
  "ex_a1 = \<lparr>qa_id = ''A1'', qa_text = ''red'', qa_is_correct = True\<rparr>"

definition ex_a2 :: QuizAnswer where
  "ex_a2 = \<lparr>qa_id = ''A2'', qa_text = ''blue'', qa_is_correct = False\<rparr>"

definition ex_b1 :: QuizAnswer where
  "ex_b1 = \<lparr>qa_id = ''B1'', qa_text = ''serif'', qa_is_correct = False\<rparr>"

definition ex_b2 :: QuizAnswer where
  "ex_b2 = \<lparr>qa_id = ''B2'', qa_text = ''kerning'', qa_is_correct = True\<rparr>"

definition ex_q1 :: QuizQuestion where
  "ex_q1 = \<lparr>qq_id = ''Q1'', qq_text = ''colour?'', qq_answers = [ex_a1, ex_a2]\<rparr>"

definition ex_q2 :: QuizQuestion where
  "ex_q2 = \<lparr>qq_id = ''Q2'', qq_text = ''spacing?'', qq_answers = [ex_b1, ex_b2]\<rparr>"

definition ex_quiz :: Quiz where
  "ex_quiz = \<lparr>quiz_id = ''quiz'', quiz_questions = [ex_q1, ex_q2]\<rparr>"

definition ex_c1 :: QuizAnswer where
  "ex_c1 = \<lparr>qa_id = ''C1'', qa_text = ''grid'', qa_is_correct = False\<rparr>"

definition ex_q3 :: QuizQuestion where
  "ex_q3 = \<lparr>qq_id = ''Q3'', qq_text = ''layout?'', qq_answers = [ex_c1]\<rparr>"

definition ex_unflagged :: Quiz where
  "ex_unflagged = \<lparr>quiz_id = ''open'', quiz_questions = [ex_q3]\<rparr>"

definition ex_empty :: Quiz where
  "ex_empty = \<lparr>quiz_id = ''empty'', quiz_questions = []\<rparr>"

text \<open>The \<open>ctx\<close> of a session whose room has one remote participant.\<close>

definition ex_ctx :: JobContext where
  "ex_ctx = \<lparr>room = Some \<lparr>remote_participants = [''client'']\<rparr>\<rparr>"

definition ex_userdata :: UserData where
  "ex_userdata =
     \<lparr>ctx = Some ex_ctx, flash_cards = [], quizzes = [ex_quiz, ex_unflagged, ex_empty]\<rparr>"

definition ex_world :: world where
  "ex_world = \<lparr>userdata = ex_userdata, uuid_calls = 0, rpc_log = [], say_log = []\<rparr>"

text \<open>
  An environment: the \<open>n\<close>-th identifier is \<open>n\<close> letters \<open>u\<close> after a \<open>u\<close>, every payload
  decodes to the given value, every value is dumped as \<open>{}\<close>, and no external call raises.
\<close>

definition ex_env :: "json \<Rightarrow> env" where
  "ex_env decoded =
     \<lparr>uuid4 = (\<lambda>n. CHR ''u'' # replicate n CHR ''u''),
      json_loads = (\<lambda>s. Inr decoded),
      json_dumps = (\<lambda>v. ''{}''),
      perform_rpc = (\<lambda>c. None),
      session_say = (\<lambda>t. None)\<rparr>"

text \<open>A store holding one flash card, already flipped.\<close>

definition ex_card :: FlashCard where
  "ex_card = \<lparr>fc_id = ''F1'', fc_question = ''What is kerning?'',
              fc_answer = ''Space between letter pairs'', fc_is_flipped = True\<rparr>"

definition ex_cards :: UserData where
  "ex_cards = \<lparr>ctx = None, flash_cards = [ex_card], quizzes = []\<rparr>"

definition ex_cards_world :: world where
  "ex_cards_world = \<lparr>userdata = ex_cards, uuid_calls = 0, rpc_log = [], say_log = []\<rparr>"

text \<open>Two questions for \<open>add_quiz\<close>: one with two options flagged correct, one with none.\<close>

definition ex_questions :: "QuizQuestionDict list" where
  "ex_questions =
     [\<lparr>qd_text = ''contrast?'',
       qd_answers = [\<lparr>ad_text = ''hue'', ad_is_correct = True\<rparr>,
                     \<lparr>ad_text = ''value'', ad_is_correct = True\<rparr>]\<rparr>,
      \<lparr>qd_text = ''grid?'', qd_answers = [\<lparr>ad_text = ''rows'', ad_is_correct = False\<rparr>]\<rparr>]"

text \<open>
  Two decoded submissions: one for the quiz without a flagged option, and one for the quiz
  of two questions that answers the second question wrongly.
\<close>

definition ex_submission :: json where
  "ex_submission = JObj [(''id'', JStr ''open''), (''answers'', JObj [(''Q3'', JStr ''C1'')])]"

definition ex_one_wrong :: json where
  "ex_one_wrong =
     JObj [(''id'', JStr ''quiz''),
           (''answers'', JObj [(''Q1'', JStr ''A1''), (''Q2'', JStr ''B1'')])]"

text \<open>
  The questions of \<open>ex_questions\<close> with other flags, a session whose room has no remote
  participant, and an empty store whose room has a client.
\<close>

definition ex_questions_flipped :: "QuizQuestionDict list" where
  "ex_questions_flipped =
     [\<lparr>qd_text = ''contrast?'',
       qd_answers = [\<lparr>ad_text = ''hue'', ad_is_correct = False\<rparr>,
                     \<lparr>ad_text = ''value'', ad_is_correct = False\<rparr>]\<rparr>,
      \<lparr>qd_text = ''grid?'', qd_answers = [\<lparr>ad_text = ''rows'', ad_is_correct = True\<rparr>]\<rparr>]"

definition ex_alone :: world where
  "ex_alone =
     \<lparr>userdata = \<lparr>ctx = Some \<lparr>room = Some \<lparr>remote_participants = []\<rparr>\<rparr>,
                   flash_cards = [ex_card], quizzes = []\<rparr>,
      uuid_calls = 0, rpc_log = [], say_log = []\<rparr>"

definition ex_connected :: world where
  "ex_connected =
     \<lparr>userdata = \<lparr>ctx = Some ex_ctx, flash_cards = [], quizzes = []\<rparr>,
      uuid_calls = 0, rpc_log = [], say_log = []\<rparr>"

section \<open>Grading\<close>

lemmas ex_defs =
  ex_userdata_def ex_quiz_def ex_unflagged_def ex_empty_def ex_q1_def ex_q2_def ex_q3_def
  ex_a1_def ex_a2_def ex_b1_def ex_b2_def ex_c1_def

lemma find_snoc:
  "find P (xs @ [x]) =
     (case find P xs of None \<Rightarrow> (if P x then Some x else None) | Some y \<Rightarrow> Some y)"
  by (induction xs) auto

lemma find_SomeD: "find P xs = Some x \<Longrightarrow> x \<in> set xs \<and> P x"
  by (induction xs) (auto split: if_splits)

lemma find_unique:
  "distinct (map f xs) \<Longrightarrow> a \<in> set xs \<Longrightarrow> (\<And>x. P x \<longleftrightarrow> f x = f a) \<Longrightarrow> find P xs = Some a"
  by (induction xs) (auto simp: image_iff)

text \<open>The inner loop keeps the last match of each kind.\<close>

lemma scan_answers_gen:
  "scan_answers as uid (s, c) =
     (case find (\<lambda>a. JStr (qa_id a) = uid) (rev as) of None \<Rightarrow> s | Some a \<Rightarrow> Some a,
      case find qa_is_correct (rev as) of None \<Rightarrow> c | Some a \<Rightarrow> Some a)"
  by (induction as arbitrary: s c) (auto simp: find_snoc split: option.splits)

lemma scan_answers_find:
  "scan_answers as uid (None, None) =
     (find (\<lambda>a. JStr (qa_id a) = uid) (rev as), find qa_is_correct (rev as))"
  by (simp add: scan_answers_gen split: option.splits)

lemma check_questions_dict:
  "check_questions qs (JObj m) =
     Inr (map (\<lambda>q. check_question q (dict_get m (qq_id q) JNull)) qs)"
  by (induction qs) (auto simp: py_get_def)

lemma find_quiz_None_iff:
  "find_quiz qs qid = None \<longleftrightarrow> (\<forall>q \<in> set qs. JStr (quiz_id q) \<noteq> qid)"
  by (induction qs) auto

lemma find_quiz_Some:
  "find_quiz qs qid = Some q \<Longrightarrow> q \<in> set qs \<and> JStr (quiz_id q) = qid"
  by (induction qs) (auto split: if_splits)

lemma find_distinct_id:
  fixes as :: "QuizAnswer list"
  assumes "distinct (map qa_id as)" and "a \<in> set as" and "JStr (qa_id a) = uid"
  shows "find (\<lambda>a. JStr (qa_id a) = uid) (rev as) = Some a"
proof (rule find_unique [where f = qa_id])
  show "distinct (map qa_id (rev as))"
    using assms(1) by (simp add: rev_map [symmetric])
  show "a \<in> set (rev as)"
    using assms(2) by simp
  show "JStr (qa_id x) = uid \<longleftrightarrow> qa_id x = qa_id a" for x :: QuizAnswer
    using assms(3) by auto
qed

lemma find_rev_distinct:
  fixes as :: "QuizAnswer list"
  assumes "distinct (map qa_id as)"
  shows "find (\<lambda>a. JStr (qa_id a) = uid) (rev as) = find (\<lambda>a. JStr (qa_id a) = uid) as"
proof (cases "find (\<lambda>a. JStr (qa_id a) = uid) as")
  case None
  then have "find (\<lambda>a. JStr (qa_id a) = uid) (rev as) = None"
    by (simp add: find_None_iff)
  with None show ?thesis by simp
next
  case (Some a)
  from find_SomeD [OF Some] find_distinct_id [OF assms, of a uid]
  show ?thesis using Some by simp
qed

lemma fst_check_question: "fst (check_question q uid) = q"
  by (simp add: check_question_def split_def Let_def)

lemma check_question_unfold:
  "check_question q uid =
     (q, find (\<lambda>a. JStr (qa_id a) = uid) (rev (qq_answers q)),
      find qa_is_correct (rev (qq_answers q)),
      snd (snd (snd (check_question q uid))))"
  by (simp add: check_question_def scan_answers_find)

lemma check_question_is_correct:
  assumes "distinct (map qa_id (qq_answers q))"
  shows "snd (snd (snd (check_question q uid))) \<longleftrightarrow>
         (\<exists>a \<in> set (qq_answers q). JStr (qa_id a) = uid \<and> qa_is_correct a)"
proof
  assume "snd (snd (snd (check_question q uid)))"
  then obtain a where a: "find (\<lambda>a. JStr (qa_id a) = uid) (rev (qq_answers q)) = Some a"
    and c: "qa_is_correct a"
    by (auto simp: check_question_def scan_answers_find split: option.splits)
  from find_SomeD [OF a] c
  show "\<exists>a \<in> set (qq_answers q). JStr (qa_id a) = uid \<and> qa_is_correct a"
    by auto
next
  assume "\<exists>a \<in> set (qq_answers q). JStr (qa_id a) = uid \<and> qa_is_correct a"
  then obtain a where a: "a \<in> set (qq_answers q)" "JStr (qa_id a) = uid" "qa_is_correct a"
    by blast
  from find_distinct_id [OF assms a(1,2)] a(3)
  show "snd (snd (snd (check_question q uid)))"
    by (simp add: check_question_def scan_answers_find)
qed

lemma check_question_selected_flag:
  "snd (snd (snd (check_question q uid))) \<longleftrightarrow>
     (\<exists>a. find (\<lambda>a. JStr (qa_id a) = uid) (rev (qq_answers q)) = Some a \<and> qa_is_correct a)"
  by (auto simp: check_question_def scan_answers_find split: option.splits)

text \<open>
  Claim C1. Grading a dictionary of answers never raises. If no stored quiz has the id, the
  result is empty. Otherwise the result has one tuple per question of the stored quiz
  (the first one with that id), in the stored order. A tuple holds its question, the last
  option whose id is the id chosen for the question, the last option flagged correct, and a
  flag that is true iff a selected option exists and is flagged correct; where the option
  ids of the question are pairwise distinct, that is: iff some option of the question has
  the chosen id and is flagged correct.
\<close>

theorem check_quiz_answers_grades:
  fixes ud :: UserData
  shows "if \<forall>quiz \<in> set (quizzes ud). JStr (quiz_id quiz) \<noteq> qid
         then check_quiz_answers ud qid (JObj m) = Inr []
         else \<exists>quiz rs.
                get_quiz ud qid = Some quiz \<and> quiz \<in> set (quizzes ud) \<and>
                JStr (quiz_id quiz) = qid \<and>
                check_quiz_answers ud qid (JObj m) = Inr rs \<and>
                map fst rs = quiz_questions quiz \<and>
                (\<forall>(q, selected, correct, is_correct) \<in> set rs.
                   selected = find (\<lambda>a. JStr (qa_id a) = dict_get m (qq_id q) JNull)
                                (rev (qq_answers q)) \<and>
                   correct = find qa_is_correct (rev (qq_answers q)) \<and>
                   (is_correct \<longleftrightarrow> (\<exists>a. selected = Some a \<and> qa_is_correct a)) \<and>
                   (distinct (map qa_id (qq_answers q)) \<longrightarrow>
                      (is_correct \<longleftrightarrow>
                         (\<exists>a \<in> set (qq_answers q).
                            JStr (qa_id a) = dict_get m (qq_id q) JNull \<and> qa_is_correct a))))"
proof (cases "find_quiz (quizzes ud) qid")
  case None
  then have "\<forall>quiz \<in> set (quizzes ud). JStr (quiz_id quiz) \<noteq> qid"
    by (simp add: find_quiz_None_iff)
  then show ?thesis
    by (simp add: check_quiz_answers_def get_quiz_def None)
next
  case (Some quiz)
  note found = find_quiz_Some [OF Some]
  let ?chosen = "\<lambda>q. dict_get m (qq_id q) JNull"
  let ?rs = "map (\<lambda>q. check_question q (?chosen q)) (quiz_questions quiz)"
  have res: "check_quiz_answers ud qid (JObj m) = Inr ?rs"
    by (simp add: check_quiz_answers_def get_quiz_def Some check_questions_dict)
  have fst: "map fst ?rs = quiz_questions quiz"
    by (simp add: o_def fst_check_question)
  have each: "\<forall>(q, selected, correct, is_correct) \<in> set ?rs.
                   selected = find (\<lambda>a. JStr (qa_id a) = ?chosen q) (rev (qq_answers q)) \<and>
                   correct = find qa_is_correct (rev (qq_answers q)) \<and>
                   (is_correct \<longleftrightarrow> (\<exists>a. selected = Some a \<and> qa_is_correct a)) \<and>
                   (distinct (map qa_id (qq_answers q)) \<longrightarrow>
                      (is_correct \<longleftrightarrow>
                         (\<exists>a \<in> set (qq_answers q). JStr (qa_id a) = ?chosen q \<and> qa_is_correct a)))"
  proof (clarify, intro conjI impI)
    fix q selected correct is_correct
    assume "(q, selected, correct, is_correct) \<in> set ?rs"
    then obtain q' where eq: "(q, selected, correct, is_correct) = check_question q' (?chosen q')"
      by auto
    from arg_cong [OF eq, of fst] have qq: "q' = q"
      by (simp add: fst_check_question)
    from trans [OF eq [unfolded qq] check_question_unfold]
    have sel: "selected = find (\<lambda>a. JStr (qa_id a) = ?chosen q) (rev (qq_answers q))"
      and cor: "correct = find qa_is_correct (rev (qq_answers q))"
      and ok: "is_correct = snd (snd (snd (check_question q (?chosen q))))"
      by simp_all
    show "selected = find (\<lambda>a. JStr (qa_id a) = ?chosen q) (rev (qq_answers q))"
      by (rule sel)
    show "correct = find qa_is_correct (rev (qq_answers q))"
      by (rule cor)
    show "is_correct \<longleftrightarrow> (\<exists>a. selected = Some a \<and> qa_is_correct a)"
      unfolding ok sel by (rule check_question_selected_flag)
    show "is_correct \<longleftrightarrow>
            (\<exists>a \<in> set (qq_answers q). JStr (qa_id a) = ?chosen q \<and> qa_is_correct a)"
      if "distinct (map qa_id (qq_answers q))"
      unfolding ok by (rule check_question_is_correct [OF that])
  qed
  from found have "\<not> (\<forall>quiz \<in> set (quizzes ud). JStr (quiz_id quiz) \<noteq> qid)"
    by blast
  moreover have "get_quiz ud qid = Some quiz"
    by (simp add: get_quiz_def Some)
  ultimately show ?thesis
    using found res fst each by (simp only: if_False) blast
qed

text \<open>
  The example of the specification: the first question answered with its correct option,
  the second with a wrong one.
\<close>

theorem check_quiz_answers_grades_witness:
  "distinct (map qa_id (qq_answers ex_q1)) \<and> distinct (map qa_id (qq_answers ex_q2)) \<and>
   (\<exists>quiz rs.
      get_quiz ex_userdata (JStr ''quiz'') = Some quiz \<and> quiz \<in> set (quizzes ex_userdata) \<and>
      check_quiz_answers ex_userdata (JStr ''quiz'')
        (JObj [(''Q1'', JStr ''A1''), (''Q2'', JStr ''B1'')]) = Inr rs \<and>
      map fst rs = quiz_questions quiz \<and>
      rs = [(ex_q1, Some ex_a1, Some ex_a1, True), (ex_q2, Some ex_b1, Some ex_b2, False)])"
proof -
  let ?m = "[(''Q1'', JStr ''A1''), (''Q2'', JStr ''B1'')]"
  have h: "distinct (map qa_id (qq_answers ex_q1))" "distinct (map qa_id (qq_answers ex_q2))"
    by (simp_all add: ex_defs)
  have r: "check_quiz_answers ex_userdata (JStr ''quiz'') (JObj ?m) =
        Inr [(ex_q1, Some ex_a1, Some ex_a1, True), (ex_q2, Some ex_b1, Some ex_b2, False)]"
    by (simp add: ex_defs check_quiz_answers_def get_quiz_def py_get_def dict_get_def
        check_question_def)
  have n: "\<not> (\<forall>quiz \<in> set (quizzes ex_userdata). JStr (quiz_id quiz) \<noteq> JStr ''quiz'')"
    by (simp add: ex_defs)
  from check_quiz_answers_grades [of ex_userdata "JStr ''quiz''" ?m] n
  obtain quiz rs where
      "get_quiz ex_userdata (JStr ''quiz'') = Some quiz" "quiz \<in> set (quizzes ex_userdata)"
      "check_quiz_answers ex_userdata (JStr ''quiz'') (JObj ?m) = Inr rs"
      "map fst rs = quiz_questions quiz"
    by (simp only: if_False) blast
  with r h show ?thesis by simp
qed

section \<open>Flipping flash cards\<close>

lemma find_flash_card_None_iff:
  "find_flash_card cs cid = None \<longleftrightarrow> (\<forall>c \<in> set cs. JStr (fc_id c) \<noteq> cid)"
  by (induction cs) auto

lemma find_flash_card_Some:
  "find_flash_card cs cid = Some i \<Longrightarrow> i < length cs \<and> JStr (fc_id (cs ! i)) = cid"
  by (induction cs arbitrary: i) (auto split: if_splits)

lemma find_flash_card_append_fresh:
  "\<forall>c \<in> set cs. JStr (fc_id c) \<noteq> cid \<Longrightarrow>
   find_flash_card (cs @ [fc]) cid = (if JStr (fc_id fc) = cid then Some (length cs) else None)"
  by (induction cs) auto

text \<open>
  Claim C5. For an id that no stored flash card has, \<open>flip_flash_card\<close> returns the absent
  result \<open>None\<close> (the model has no exception here, as the source raises none) and the whole
  \<open>UserData\<close>, so the flash-card list with its length and every element, is unchanged;
  \<open>get_flash_card\<close> is absent as well.
\<close>

theorem flip_unknown_id:
  assumes "\<forall>c \<in> set (flash_cards ud). JStr (fc_id c) \<noteq> card_id"
  shows "flip_flash_card ud card_id = (None, ud) \<and> get_flash_card ud card_id = None"
  using assms by (simp add: flip_flash_card_def get_flash_card_def find_flash_card_None_iff [symmetric])

theorem flip_unknown_id_witness:
  "JStr (fc_id ex_card) \<noteq> JStr ''F2'' \<and> flash_cards ex_cards = [ex_card] \<and>
   flip_flash_card ex_cards (JStr ''F2'') = (None, ex_cards)"
proof -
  have h: "\<forall>c \<in> set (flash_cards ex_cards). JStr (fc_id c) \<noteq> JStr ''F2''"
    by (simp add: ex_cards_def ex_card_def)
  from flip_unknown_id [OF h] show ?thesis
    by (simp add: ex_cards_def ex_card_def)
qed

lemma flip_flash_card_last:
  assumes "\<forall>c \<in> set cs. fc_id c \<noteq> fc_id fc" and "flash_cards ud = cs @ [fc]"
  shows "flip_flash_card ud (JStr (fc_id fc)) =
           (Some (fc\<lparr>fc_is_flipped := \<not> fc_is_flipped fc\<rparr>),
            ud\<lparr>flash_cards := cs @ [fc\<lparr>fc_is_flipped := \<not> fc_is_flipped fc\<rparr>]\<rparr>)"
proof -
  from assms(1) have "\<forall>c \<in> set cs. JStr (fc_id c) \<noteq> JStr (fc_id fc)" by simp
  from find_flash_card_append_fresh [OF this, of fc]
  have "find_flash_card (flash_cards ud) (JStr (fc_id fc)) = Some (length cs)"
    by (simp add: assms(2))
  then show ?thesis
    by (simp add: flip_flash_card_def assms(2) Let_def)
qed

text \<open>
  Claim C4. A flash card just created by \<open>add_flash_card\<close> under an identifier that no
  stored card has is unflipped; the first \<open>flip_flash_card\<close> with its id returns it with
  \<open>is_flipped\<close> true, the second returns it with \<open>is_flipped\<close> false again and the store is
  back where it was after the creation. For the id of any stored card \<open>flip_flash_card\<close>
  returns a card, with that id.
\<close>

theorem flip_twice:
  assumes fresh: "\<forall>c \<in> set (flash_cards (userdata w)). fc_id c \<noteq> uuid4 E (uuid_calls w)"
  shows "(case add_flash_card E question answer w of (fc, w1) \<Rightarrow>
            \<not> fc_is_flipped fc \<and>
            (case flip_flash_card (userdata w1) (JStr (fc_id fc)) of (r1, ud1) \<Rightarrow>
               r1 = Some (fc\<lparr>fc_is_flipped := True\<rparr>) \<and>
               (case flip_flash_card ud1 (JStr (fc_id fc)) of (r2, ud2) \<Rightarrow>
                  r2 = Some fc \<and> ud2 = userdata w1))) \<and>
         (\<forall>c \<in> set (flash_cards ud).
            \<exists>c'. fst (flip_flash_card ud (JStr (fc_id c))) = Some c' \<and> fc_id c' = fc_id c)"
proof
  let ?fc = "\<lparr>fc_id = uuid4 E (uuid_calls w), fc_question = question,
              fc_answer = answer, fc_is_flipped = False\<rparr>"
  let ?cs = "flash_cards (userdata w)"
  let ?ud1 = "(userdata w)\<lparr>flash_cards := ?cs @ [?fc]\<rparr>"
  have add: "add_flash_card E question answer w =
               (?fc, w\<lparr>userdata := ?ud1, uuid_calls := Suc (uuid_calls w)\<rparr>)"
    by (simp add: add_flash_card_def Let_def)
  from fresh have f1: "\<forall>c \<in> set ?cs. fc_id c \<noteq> fc_id ?fc" by simp
  have one: "flip_flash_card ?ud1 (JStr (fc_id ?fc)) =
               (Some (?fc\<lparr>fc_is_flipped := True\<rparr>),
                ?ud1\<lparr>flash_cards := ?cs @ [?fc\<lparr>fc_is_flipped := True\<rparr>]\<rparr>)"
    using flip_flash_card_last [OF f1, of ?ud1] by simp
  from fresh have f2: "\<forall>c \<in> set ?cs. fc_id c \<noteq> fc_id (?fc\<lparr>fc_is_flipped := True\<rparr>)" by simp
  have two: "flip_flash_card (?ud1\<lparr>flash_cards := ?cs @ [?fc\<lparr>fc_is_flipped := True\<rparr>]\<rparr>)
               (JStr (fc_id ?fc)) = (Some ?fc, ?ud1)"
    using flip_flash_card_last [OF f2, of "?ud1\<lparr>flash_cards := ?cs @ [?fc\<lparr>fc_is_flipped := True\<rparr>]\<rparr>"]
    by simp
  show "case add_flash_card E question answer w of (fc, w1) \<Rightarrow>
            \<not> fc_is_flipped fc \<and>
            (case flip_flash_card (userdata w1) (JStr (fc_id fc)) of (r1, ud1) \<Rightarrow>
               r1 = Some (fc\<lparr>fc_is_flipped := True\<rparr>) \<and>
               (case flip_flash_card ud1 (JStr (fc_id fc)) of (r2, ud2) \<Rightarrow>
                  r2 = Some fc \<and> ud2 = userdata w1))"
    using one two by (simp add: add)
next
  show "\<forall>c \<in> set (flash_cards ud).
            \<exists>c'. fst (flip_flash_card ud (JStr (fc_id c))) = Some c' \<and> fc_id c' = fc_id c"
  proof
    fix c assume "c \<in> set (flash_cards ud)"
    then have "find_flash_card (flash_cards ud) (JStr (fc_id c)) \<noteq> None"
      by (auto simp: find_flash_card_None_iff)
    then obtain i where i: "find_flash_card (flash_cards ud) (JStr (fc_id c)) = Some i"
      by blast
    from find_flash_card_Some [OF i] i
    show "\<exists>c'. fst (flip_flash_card ud (JStr (fc_id c))) = Some c' \<and> fc_id c' = fc_id c"
      by (simp add: flip_flash_card_def Let_def)
  qed
qed

theorem flip_twice_witness:
  "fc_id ex_card \<noteq> uuid4 (ex_env JNull) (uuid_calls ex_cards_world) \<and>
   (case add_flash_card (ex_env JNull) ''front'' ''back'' ex_cards_world of (fc, w1) \<Rightarrow>
      \<not> fc_is_flipped fc \<and>
      (case flip_flash_card (userdata w1) (JStr (fc_id fc)) of (r1, ud1) \<Rightarrow>
         r1 = Some (fc\<lparr>fc_is_flipped := True\<rparr>) \<and>
         (case flip_flash_card ud1 (JStr (fc_id fc)) of (r2, ud2) \<Rightarrow>
            r2 = Some fc \<and> ud2 = userdata w1))) \<and>
   (\<exists>c'. fst (flip_flash_card ex_cards (JStr (fc_id ex_card))) = Some c' \<and> fc_id c' = fc_id ex_card)"
proof -
  have h: "\<forall>c \<in> set (flash_cards (userdata ex_cards_world)).
             fc_id c \<noteq> uuid4 (ex_env JNull) (uuid_calls ex_cards_world)"
    by (simp add: ex_cards_world_def ex_cards_def ex_card_def ex_env_def)
  have m: "ex_card \<in> set (flash_cards ex_cards)"
    by (simp add: ex_cards_def)
  from flip_twice [OF h, where question = "''front''" and answer = "''back''" and ud = ex_cards] h m
  show ?thesis
    by (simp add: ex_cards_world_def ex_cards_def)
qed

section \<open>The store only grows\<close>

lemma store_grows_refl: "store_grows ud ud"
  by (simp add: store_grows_def)

lemma store_grows_trans: "store_grows a b \<Longrightarrow> store_grows b c \<Longrightarrow> store_grows a c"
  by (auto simp: store_grows_def)

lemma userdata_add_flash_card:
  "userdata (snd (add_flash_card E question answer w)) =
     (userdata w)\<lparr>flash_cards := flash_cards (userdata w) @
        [\<lparr>fc_id = uuid4 E (uuid_calls w), fc_question = question,
          fc_answer = answer, fc_is_flipped = False\<rparr>]\<rparr>"
  by (simp add: add_flash_card_def Let_def)

lemma userdata_add_quiz:
  "userdata (snd (add_quiz E questions w)) =
     (userdata w)\<lparr>quizzes := quizzes (userdata w) @ [fst (add_quiz E questions w)]\<rparr>"
  by (simp add: add_quiz_def Let_def split_def)

lemma flip_flash_card_frame:
  "ctx (snd (flip_flash_card ud cid)) = ctx ud \<and>
   quizzes (snd (flip_flash_card ud cid)) = quizzes ud \<and>
   map unflipped (flash_cards (snd (flip_flash_card ud cid))) = map unflipped (flash_cards ud)"
proof (cases "find_flash_card (flash_cards ud) cid")
  case None
  then show ?thesis by (simp add: flip_flash_card_def)
next
  case (Some i)
  have "(map unflipped (flash_cards ud))[i := unflipped (flash_cards ud ! i)] =
          map unflipped (flash_cards ud)"
    using find_flash_card_Some [OF Some] by (simp add: list_update_same_conv)
  then show ?thesis
    by (simp add: flip_flash_card_def Some Let_def map_update unflipped_def)
qed

lemma store_step_grows: "store_grows (userdata w) (userdata (store_step E w op))"
proof (cases op)
  case (FlipFlashCard cid)
  then show ?thesis
    using flip_flash_card_frame [of "userdata w" cid] by (simp add: store_grows_def)
qed (simp_all add: store_grows_def userdata_add_flash_card userdata_add_quiz)

lemma store_steps_grow: "store_grows (userdata w) (userdata (foldl (store_step E) w ops))"
proof (induction ops arbitrary: w)
  case Nil
  show ?case by (simp add: store_grows_refl)
next
  case (Cons op ops)
  from store_step_grows [of w E op] Cons.IH [of "store_step E w op"]
  show ?case by (auto intro: store_grows_trans)
qed

text \<open>
  Claim C6. After each of the six operations of the record store, and after any sequence of
  them, the quizzes stored before are a prefix of the quizzes stored after, the flash cards
  stored before are a prefix of those stored after up to their \<open>is_flipped\<close> flags, and
  \<open>ctx\<close> is the same: nothing is removed, and no field of a stored record other than a
  flash card's \<open>is_flipped\<close> changes.
\<close>

theorem store_only_grows:
  "store_grows (userdata w) (userdata (store_step E w op)) \<and>
   store_grows (userdata w) (userdata (foldl (store_step E) w ops))"
  by (simp add: store_step_grows store_steps_grow)

section \<open>Creating a quiz\<close>

lemma mk_answers_content:
  "map (\<lambda>a. (qa_text a, qa_is_correct a)) (fst (mk_answers E as n)) =
     map (\<lambda>a. (ad_text a, ad_is_correct a)) as"
  by (induction as arbitrary: n) (simp_all add: split_def Let_def)

lemma mk_answers_count: "snd (mk_answers E as n) = n + length as"
  by (induction as arbitrary: n) (simp_all add: split_def Let_def)

lemma upt_split: "n \<le> k \<Longrightarrow> k < m \<Longrightarrow> [n ..< m] = [n ..< k] @ k # [Suc k ..< m]"
proof -
  assume "n \<le> k" and "k < m"
  then obtain d where m: "m = k + d"
    using less_imp_add_positive by blast
  from \<open>n \<le> k\<close> have "[n ..< k + d] = [n ..< k] @ [k ..< k + d]"
    by (rule upt_add_eq_append)
  moreover from \<open>k < m\<close> have "[k ..< m] = k # [Suc k ..< m]"
    by (rule upt_conv_Cons)
  ultimately show ?thesis by (simp add: m)
qed

lemma mk_answers_ids:
  "map qa_id (fst (mk_answers E as n)) = map (uuid4 E) [n ..< n + length as]"
proof (induction as arbitrary: n)
  case Nil
  show ?case by simp
next
  case (Cons a as)
  have "[n ..< n + length (a # as)] = n # [Suc n ..< Suc n + length as]"
    using upt_conv_Cons [of n "n + length (a # as)"] by simp
  then show ?case
    by (simp add: split_def Let_def Cons.IH)
qed

lemma mk_questions_content:
  "map (\<lambda>q. (qq_text q, map (\<lambda>a. (qa_text a, qa_is_correct a)) (qq_answers q)))
       (fst (mk_questions E qs n)) =
     map (\<lambda>q. (qd_text q, map (\<lambda>a. (ad_text a, ad_is_correct a)) (qd_answers q))) qs"
  by (induction qs arbitrary: n) (simp_all add: split_def Let_def mk_answers_content)

lemma mk_questions_mono: "n \<le> snd (mk_questions E qs n)"
proof (induction qs arbitrary: n)
  case Nil
  show ?case by simp
next
  case (Cons q qs)
  from Cons [of "Suc (n + length (qd_answers q))"]
  show ?case by (simp add: split_def Let_def mk_answers_count)
qed

lemma question_ids_make:
  "question_ids \<lparr>qq_id = i, qq_text = t, qq_answers = as\<rparr> = map qa_id as @ [i]"
  by (simp add: question_ids_def)

lemma mk_questions_ids:
  "concat (map question_ids (fst (mk_questions E qs n))) =
     map (uuid4 E) [n ..< snd (mk_questions E qs n)]"
proof (induction qs arbitrary: n)
  case Nil
  show ?case by simp
next
  case (Cons q qs)
  let ?k = "n + length (qd_answers q)"
  let ?m = "snd (mk_questions E qs (Suc ?k))"
  have le: "Suc ?k \<le> ?m" by (rule mk_questions_mono)
  have "[n ..< ?m] = [n ..< ?k] @ ?k # [Suc ?k ..< ?m]"
    using le by (intro upt_split) simp_all
  then show ?case
    by (simp add: split_def Let_def mk_answers_count mk_answers_ids question_ids_make Cons.IH)
qed

text \<open>
  Claim C7. \<open>add_quiz\<close> is total: for every list of question dictionaries it returns a quiz
  and appends it to the stored quizzes. The questions keep the input order and texts, the
  options of each question keep their order, texts and \<open>is_correct\<close> flags, whatever the
  flags are. The identifiers of the options, questions and quiz are the next results of
  \<open>uuid4\<close>, one draw each and in creation order, so they are pairwise distinct where those
  draws are.
\<close>

theorem add_quiz_builds:
  "case add_quiz E questions w of (quiz, w') \<Rightarrow>
     quizzes (userdata w') = quizzes (userdata w) @ [quiz] \<and>
     flash_cards (userdata w') = flash_cards (userdata w) \<and>
     map (\<lambda>q. (qq_text q, map (\<lambda>a. (qa_text a, qa_is_correct a)) (qq_answers q)))
         (quiz_questions quiz) =
       map (\<lambda>q. (qd_text q, map (\<lambda>a. (ad_text a, ad_is_correct a)) (qd_answers q))) questions \<and>
     quiz_ids quiz = map (uuid4 E) [uuid_calls w ..< uuid_calls w'] \<and>
     uuid_calls w' = uuid_calls w + length (quiz_ids quiz) \<and>
     (inj_on (uuid4 E) {uuid_calls w ..< uuid_calls w'} \<longrightarrow> distinct (quiz_ids quiz))"
proof -
  let ?n = "uuid_calls w"
  let ?m = "snd (mk_questions E questions ?n)"
  let ?quiz = "\<lparr>quiz_id = uuid4 E ?m, quiz_questions = fst (mk_questions E questions ?n)\<rparr>"
  let ?w' = "w\<lparr>userdata := (userdata w)\<lparr>quizzes := quizzes (userdata w) @ [?quiz]\<rparr>,
                uuid_calls := Suc ?m\<rparr>"
  have run: "add_quiz E questions w = (?quiz, ?w')"
    by (simp add: add_quiz_def split_def Let_def)
  have le: "?n \<le> ?m" by (rule mk_questions_mono)
  have ids: "quiz_ids ?quiz = map (uuid4 E) [?n ..< Suc ?m]"
    using le by (simp add: quiz_ids_def mk_questions_ids)
  have len: "Suc ?m = ?n + length (quiz_ids ?quiz)"
    using le by (simp add: ids)
  have dist: "inj_on (uuid4 E) {?n ..< Suc ?m} \<longrightarrow> distinct (quiz_ids ?quiz)"
    unfolding ids by (simp only: distinct_map distinct_upt set_upt simp_thms)
  show ?thesis
    unfolding run using ids len dist by (simp add: mk_questions_content)
qed

theorem add_quiz_builds_witness:
  "inj_on (uuid4 (ex_env JNull)) {0 ..< 6} \<and>
   (case add_quiz (ex_env JNull) ex_questions ex_world of (quiz, w') \<Rightarrow>
      uuid_calls w' = 6 \<and>
      quiz_ids quiz = [''u'', ''uu'', ''uuu'', ''uuuu'', ''uuuuu'', ''uuuuuu''] \<and>
      distinct (quiz_ids quiz) \<and>
      map (\<lambda>q. map qa_is_correct (qq_answers q)) (quiz_questions quiz) = [[True, True], [False]])"
proof -
  have inj: "inj_on (uuid4 (ex_env JNull)) {0 ..< 6}"
    by (simp add: inj_on_def ex_env_def)
  from add_quiz_builds [where E = "ex_env JNull" and questions = ex_questions and w = ex_world] inj
  show ?thesis
    by (simp add: add_quiz_def split_def Let_def ex_world_def ex_questions_def ex_env_def quiz_ids_def question_ids_def)
qed

section \<open>What the client is told\<close>

lemma client_answer_clear: "client_answer (a\<lparr>qa_is_correct := b\<rparr>) = client_answer a"
  by (simp add: client_answer_def)

lemma quiz_payload_clear: "quiz_payload (clear_correct quiz) = quiz_payload quiz"
  by (simp add: quiz_payload_def clear_correct_def client_question_def o_def client_answer_clear)

lemma mk_answers_client:
  "map ad_text as1 = map ad_text as2 \<Longrightarrow>
   map client_answer (fst (mk_answers E as1 n)) = map client_answer (fst (mk_answers E as2 n)) \<and>
   snd (mk_answers E as1 n) = snd (mk_answers E as2 n)"
proof (induction as1 arbitrary: as2 n)
  case Nil
  then show ?case by simp
next
  case (Cons a as1)
  then obtain b bs where as2: "as2 = b # bs" and t: "ad_text a = ad_text b"
    and r: "map ad_text as1 = map ad_text bs"
    by (cases as2) auto
  from Cons.IH [OF r, of "Suc n"] t show ?case
    by (simp add: as2 split_def Let_def client_answer_def)
qed

lemma mk_questions_client:
  "dict_texts qs1 = dict_texts qs2 \<Longrightarrow>
   map client_question (fst (mk_questions E qs1 n)) = map client_question (fst (mk_questions E qs2 n)) \<and>
   snd (mk_questions E qs1 n) = snd (mk_questions E qs2 n)"
proof (induction qs1 arbitrary: qs2 n)
  case Nil
  then show ?case by (simp add: dict_texts_def)
next
  case (Cons q qs1)
  then obtain p ps where qs2: "qs2 = p # ps" and t: "qd_text q = qd_text p"
    and a: "map ad_text (qd_answers q) = map ad_text (qd_answers p)"
    and r: "dict_texts qs1 = dict_texts ps"
    by (cases qs2) (auto simp: dict_texts_def)
  note ans = mk_answers_client [OF a, of E n]
  from Cons.IH [OF r, of "Suc (snd (mk_answers E (qd_answers p) n))"] ans t show ?case
    by (simp add: qs2 split_def Let_def client_question_def)
qed

lemma add_quiz_client:
  assumes "dict_texts qs1 = dict_texts qs2"
  shows "quiz_payload (fst (add_quiz E qs1 w)) = quiz_payload (fst (add_quiz E qs2 w))"
  using mk_questions_client [OF assms, of E "uuid_calls w"]
  by (simp add: add_quiz_def split_def Let_def quiz_payload_def)

lemma add_quiz_frame:
  "ctx (userdata (snd (add_quiz E qs w))) = ctx (userdata w) \<and>
   rpc_log (snd (add_quiz E qs w)) = rpc_log w \<and> say_log (snd (add_quiz E qs w)) = say_log w"
  by (simp add: add_quiz_def split_def Let_def)

lemma dict_texts_length: "dict_texts qs1 = dict_texts qs2 \<Longrightarrow> length qs1 = length qs2"
  unfolding dict_texts_def by (rule map_eq_imp_length_eq)

lemma create_quiz_sends:
  "\<exists>sent. rpc_log (snd (create_quiz E qs w)) = rpc_log w @ sent \<and>
     (sent = [] \<or>
      (\<exists>p. sent = [\<lparr>destination_identity = p, rpc_method = ''client.quiz'',
                      rpc_payload = json_dumps E (quiz_payload (fst (add_quiz E qs w)))\<rparr>]))"
  using add_quiz_frame [of E qs w]
  by (auto simp: create_quiz_def send_rpc_def split_def Let_def
           split: option.splits list.splits)

lemma create_quiz_same:
  assumes "dict_texts qs1 = dict_texts qs2"
  shows "fst (create_quiz E qs1 w) = fst (create_quiz E qs2 w) \<and>
         rpc_log (snd (create_quiz E qs1 w)) = rpc_log (snd (create_quiz E qs2 w))"
  using add_quiz_frame [of E qs1 w] add_quiz_frame [of E qs2 w]
    add_quiz_client [OF assms, of E w] dict_texts_length [OF assms]
  by (auto simp: create_quiz_def send_rpc_def split_def Let_def
           split: option.splits list.splits)

text \<open>
  Claim C8. The payload built for \<open>client.quiz\<close> is the same for two quizzes that differ only
  in which options are flagged correct. So \<open>create_quiz\<close>, run in the same session on two
  inputs that differ only in their flags, returns the same reply and performs the same
  calls; and the only call it can add is one \<open>client.quiz\<close> call carrying the dump of that
  payload.
\<close>

theorem quiz_payload_hides_correct:
  "(clear_correct quiz1 = clear_correct quiz2 \<longrightarrow> quiz_payload quiz1 = quiz_payload quiz2) \<and>
   (dict_texts qs1 = dict_texts qs2 \<longrightarrow>
      fst (create_quiz E qs1 w) = fst (create_quiz E qs2 w) \<and>
      rpc_log (snd (create_quiz E qs1 w)) = rpc_log (snd (create_quiz E qs2 w))) \<and>
   (\<exists>sent. rpc_log (snd (create_quiz E qs1 w)) = rpc_log w @ sent \<and>
      (sent = [] \<or>
       (\<exists>p. sent = [\<lparr>destination_identity = p, rpc_method = ''client.quiz'',
                       rpc_payload = json_dumps E (quiz_payload (fst (add_quiz E qs1 w)))\<rparr>])))"
proof (intro conjI impI)
  assume "clear_correct quiz1 = clear_correct quiz2"
  then have "quiz_payload (clear_correct quiz1) = quiz_payload (clear_correct quiz2)"
    by simp
  then show "quiz_payload quiz1 = quiz_payload quiz2"
    by (simp only: quiz_payload_clear)
next
  assume t: "dict_texts qs1 = dict_texts qs2"
  from create_quiz_same [OF t]
  show "fst (create_quiz E qs1 w) = fst (create_quiz E qs2 w)"
    and "rpc_log (snd (create_quiz E qs1 w)) = rpc_log (snd (create_quiz E qs2 w))"
    by simp_all
next
  show "\<exists>sent. rpc_log (snd (create_quiz E qs1 w)) = rpc_log w @ sent \<and>
      (sent = [] \<or>
       (\<exists>p. sent = [\<lparr>destination_identity = p, rpc_method = ''client.quiz'',
                       rpc_payload = json_dumps E (quiz_payload (fst (add_quiz E qs1 w)))\<rparr>]))"
    by (rule create_quiz_sends)
qed

theorem quiz_payload_hides_correct_witness:
  "clear_correct ex_quiz = clear_correct (ex_quiz\<lparr>quiz_questions := [ex_q1\<lparr>qq_answers := [ex_a1, ex_a2\<lparr>qa_is_correct := True\<rparr>]\<rparr>, ex_q2]\<rparr>) \<and>
   quiz_payload ex_quiz = quiz_payload (ex_quiz\<lparr>quiz_questions := [ex_q1\<lparr>qq_answers := [ex_a1, ex_a2\<lparr>qa_is_correct := True\<rparr>]\<rparr>, ex_q2]\<rparr>) \<and>
   dict_texts ex_questions = dict_texts ex_questions_flipped \<and>
   ex_questions \<noteq> ex_questions_flipped \<and>
   rpc_log (snd (create_quiz (ex_env JNull) ex_questions ex_connected)) =
     rpc_log (snd (create_quiz (ex_env JNull) ex_questions_flipped ex_connected)) \<and>
   length (rpc_log (snd (create_quiz (ex_env JNull) ex_questions ex_connected))) = 1"
proof -
  have a: "clear_correct ex_quiz = clear_correct (ex_quiz\<lparr>quiz_questions := [ex_q1\<lparr>qq_answers := [ex_a1, ex_a2\<lparr>qa_is_correct := True\<rparr>]\<rparr>, ex_q2]\<rparr>)"
    by (simp add: clear_correct_def ex_defs)
  have b: "dict_texts ex_questions = dict_texts ex_questions_flipped"
    by (simp add: dict_texts_def ex_questions_def ex_questions_flipped_def)
  have c: "ex_questions \<noteq> ex_questions_flipped"
    by (simp add: ex_questions_def ex_questions_flipped_def)
  have d: "length (rpc_log (snd (create_quiz (ex_env JNull) ex_questions ex_connected))) = 1"
    by (simp add: create_quiz_def add_quiz_def send_rpc_def split_def Let_def ex_connected_def ex_ctx_def
        ex_questions_def ex_env_def)
  from quiz_payload_hides_correct [where ?quiz1.0 = ex_quiz
      and ?quiz2.0 = "ex_quiz\<lparr>quiz_questions := [ex_q1\<lparr>qq_answers := [ex_a1, ex_a2\<lparr>qa_is_correct := True\<rparr>]\<rparr>, ex_q2]\<rparr>"
      and ?qs1.0 = ex_questions and ?qs2.0 = ex_questions_flipped and E = "ex_env JNull" and w = ex_connected]
    a b c d
  show ?thesis by simp
qed

text \<open>
  Claim C9. When \<open>userdata.ctx\<close> has no room, or the room has no remote participant,
  \<open>create_flash_card\<close> does not raise: it returns one of its two status strings, performs no
  call, and the new flash card is the last card of the store.
\<close>

theorem create_flash_card_without_peer:
  assumes "no_peer (userdata w)"
  shows "case create_flash_card E question answer w of (reply, w') \<Rightarrow>
           (reply = Inr ''Created a flash card, but couldn't access the room to send it.'' \<or>
            reply = Inr ''Created a flash card, but no participants found to send it to.'') \<and>
           rpc_log w' = rpc_log w \<and>
           flash_cards (userdata w') =
             flash_cards (userdata w) @
               [\<lparr>fc_id = uuid4 E (uuid_calls w), fc_question = question,
                 fc_answer = answer, fc_is_flipped = False\<rparr>] \<and>
           quizzes (userdata w') = quizzes (userdata w)"
  using assms
  by (auto simp: create_flash_card_def add_flash_card_def no_peer_def Let_def
           split: option.splits list.splits)

theorem create_flash_card_without_peer_witness:
  "no_peer (userdata ex_alone) \<and>
   (case create_flash_card (ex_env JNull) ''What is kerning?'' ''Letter spacing'' ex_alone of
      (reply, w') \<Rightarrow>
        reply = Inr ''Created a flash card, but no participants found to send it to.'' \<and>
        rpc_log w' = [] \<and>
        flash_cards (userdata w') =
          [ex_card, \<lparr>fc_id = ''u'', fc_question = ''What is kerning?'',
                     fc_answer = ''Letter spacing'', fc_is_flipped = False\<rparr>])"
proof -
  have h: "no_peer (userdata ex_alone)"
    by (simp add: no_peer_def ex_alone_def)
  from create_flash_card_without_peer [OF h, of "ex_env JNull" "''What is kerning?''" "''Letter spacing''"] h
  show ?thesis
    by (simp add: create_flash_card_def add_flash_card_def Let_def ex_alone_def ex_env_def)
qed

section \<open>Quiz submissions\<close>

lemma py_get_dict: "py_get (JObj kv) k d = Inr (dict_get kv k d)"
  by (simp add: py_get_def)

lemma submit_quiz_body_dict:
  assumes "json_loads E p = Inr (JObj kv)" and "truthy (dict_get kv ''id'' JNull)"
  shows "submit_quiz_body E jc p w =
     (case check_quiz_answers (userdata w) (dict_get kv ''id'' JNull)
             (dict_get kv ''answers'' (JObj [])) of
        Inl e \<Rightarrow> (Inl e, w)
      | Inr quiz_results \<Rightarrow>
          if quiz_results = [] then (Inr ''error: Quiz not found'', w)
          else
     (case feedback_loop E jc quiz_results w of
        (Inl e, w1) \<Rightarrow> (Inl e, w1)
      | (Inr feedback_details, w1) \<Rightarrow>
          (let detailed_feedback = join [CHR 0x0A, CHR 0x0A] feedback_details;
               full_response = result_summary quiz_results @ [CHR 0x0A, CHR 0x0A] @ detailed_feedback;
               w2 = w1\<lparr>say_log := say_log w1 @ [full_response]\<rparr>
           in case session_say E full_response of
                Some e \<Rightarrow> (Inl e, w2)
              | None \<Rightarrow> (Inr ''success'', w2))))"
  using assms by (simp add: submit_quiz_body_def py_get_dict)

text \<open>
  Claim C10. Let the payload decode to a dictionary whose \<open>id\<close> is truthy. If that id resolves
  to a stored quiz without questions, grading returns the empty list whatever the answers
  are, and the handler replies \<open>error: Quiz not found\<close> and leaves the session as it was:
  the very reply, with the session untouched as well, that it gives in a session where no
  quiz has that id.
\<close>

theorem empty_quiz_not_found:
  assumes "json_loads E p = Inr (JObj kv)"
    and "truthy (dict_get kv ''id'' JNull)"
    and "get_quiz (userdata w1) (dict_get kv ''id'' JNull) = Some quiz"
    and "quiz_questions quiz = []"
    and "get_quiz (userdata w2) (dict_get kv ''id'' JNull) = None"
  shows "check_quiz_answers (userdata w1) (dict_get kv ''id'' JNull) ans = Inr [] \<and>
         handle_submit_quiz E jc p w1 = (Inr ''error: Quiz not found'', w1) \<and>
         handle_submit_quiz E jc p w2 = (Inr ''error: Quiz not found'', w2)"
proof -
  have c1: "check_quiz_answers (userdata w1) (dict_get kv ''id'' JNull) a = Inr []" for a
    using assms(3,4) by (simp add: check_quiz_answers_def)
  have c2: "check_quiz_answers (userdata w2) (dict_get kv ''id'' JNull) a = Inr []" for a
    using assms(5) by (simp add: check_quiz_answers_def)
  show ?thesis
    by (simp add: handle_submit_quiz_def submit_quiz_body_dict [OF assms(1,2)] c1 c2)
qed

theorem empty_quiz_not_found_witness:
  "json_loads (ex_env (JObj [(''id'', JStr ''empty'')])) ''{}'' = Inr (JObj [(''id'', JStr ''empty'')]) \<and>
   truthy (JStr ''empty'') \<and>
   get_quiz (userdata ex_world) (JStr ''empty'') = Some ex_empty \<and>
   quiz_questions ex_empty = [] \<and>
   get_quiz (userdata ex_cards_world) (JStr ''empty'') = None \<and>
   handle_submit_quiz (ex_env (JObj [(''id'', JStr ''empty'')])) ex_ctx ''{}'' ex_world =
     (Inr ''error: Quiz not found'', ex_world) \<and>
   handle_submit_quiz (ex_env (JObj [(''id'', JStr ''empty'')])) ex_ctx ''{}'' ex_cards_world =
     (Inr ''error: Quiz not found'', ex_cards_world)"
proof -
  let ?E = "ex_env (JObj [(''id'', JStr ''empty'')])"
  have d: "dict_get [(''id'', JStr ''empty'')] ''id'' JNull = JStr ''empty''"
    by (simp add: dict_get_def)
  have 1: "json_loads ?E ''{}'' = Inr (JObj [(''id'', JStr ''empty'')])"
    by (simp add: ex_env_def)
  have 2: "truthy (dict_get [(''id'', JStr ''empty'')] ''id'' JNull)"
    by (simp add: d)
  have 3: "get_quiz (userdata ex_world) (dict_get [(''id'', JStr ''empty'')] ''id'' JNull) = Some ex_empty"
    by (simp add: d get_quiz_def ex_world_def ex_defs)
  have 4: "quiz_questions ex_empty = []"
    by (simp add: ex_empty_def)
  have 5: "get_quiz (userdata ex_cards_world) (dict_get [(''id'', JStr ''empty'')] ''id'' JNull) = None"
    by (simp add: d get_quiz_def ex_cards_world_def ex_cards_def)
  from empty_quiz_not_found [OF 1 2 3 4 5, of JNull ex_ctx] 1 2 3 4 5
  show ?thesis by (simp add: d)
qed

text \<open>Every graded tuple is \<open>check_question\<close> of its question.\<close>

lemma check_questions_results:
  "check_questions qs ans = Inr rs \<Longrightarrow> \<forall>r \<in> set rs. \<exists>q uid. r = check_question q uid"
proof (induction qs arbitrary: rs)
  case Nil
  then show ?case by simp
next
  case (Cons q qs)
  then show ?case
    by (fastforce split: sum.splits)
qed

lemma check_quiz_answers_results:
  assumes "check_quiz_answers ud qid ans = Inr rs"
  shows "\<forall>r \<in> set rs. \<exists>q uid. r = check_question q uid"
proof (cases "get_quiz ud qid")
  case None
  with assms show ?thesis by (simp add: check_quiz_answers_def)
next
  case (Some quiz)
  with assms show ?thesis
    by (simp add: check_quiz_answers_def check_questions_results)
qed

lemma check_question_selected:
  "check_question q uid = (q', s, c, True) \<Longrightarrow> \<exists>a. s = Some a"
  by (auto simp: check_question_def split_def Let_def split: option.splits)

lemma check_question_correct:
  "check_question q uid = (q', s, Some a, ok) \<Longrightarrow>
   q' = q \<and> a \<in> set (qq_answers q) \<and> qa_is_correct a \<and> find qa_is_correct (rev (qq_answers q)) = Some a"
proof -
  assume e: "check_question q uid = (q', s, Some a, ok)"
  from trans [OF e [symmetric] check_question_unfold]
  have q: "q' = q" and f: "find qa_is_correct (rev (qq_answers q)) = Some a"
    by simp_all
  from find_SomeD [OF f] q f show ?thesis by simp
qed

subsection \<open>The feedback loop\<close>

lemma feedback_step_correct:
  "feedback_step E jc (q, Some a, c, True) w = (Inr (feedback_correct q a), w)"
  by (simp add: feedback_step_def)

lemma feedback_step_incorrect_cards:
  "flash_cards (userdata (snd (feedback_step E jc (q, s, Some c, False) w))) =
     flash_cards (userdata w) @
       [\<lparr>fc_id = uuid4 E (uuid_calls w), fc_question = qq_text q,
         fc_answer = qa_text c, fc_is_flipped = False\<rparr>]"
  by (auto simp: feedback_step_def add_flash_card_def send_rpc_def Let_def
           split: option.splits list.splits)

lemma feedback_step_incorrect_ok:
  assumes "room jc = Some rm" and "\<forall>call. perform_rpc E call = None"
  shows "\<exists>f. fst (feedback_step E jc (q, s, Some c, False) w) = Inr f"
  using assms
  by (auto simp: feedback_step_def add_flash_card_def send_rpc_def Let_def
           split: option.splits list.splits)

lemma feedback_loop_all_correct:
  assumes "\<forall>r \<in> set rs. \<exists>q a c. r = (q, Some a, c, True)"
  shows "\<exists>fs. feedback_loop E jc rs w = (Inr fs, w)"
  using assms
proof (induction rs)
  case Nil
  show ?case by simp
next
  case (Cons r rs)
  then obtain q a c where r: "r = (q, Some a, c, True)" by auto
  from Cons obtain fs where "feedback_loop E jc rs w = (Inr fs, w)" by auto
  then show ?case
    by (simp add: r feedback_step_correct)
qed


lemma snd_feedback_loop_Cons:
  "snd (feedback_loop E jc (r # rs) w) =
     (case feedback_step E jc r w of
        (Inl e, w1) \<Rightarrow> w1
      | (Inr f, w1) \<Rightarrow> snd (feedback_loop E jc rs w1))"
  by (simp split: prod.splits sum.splits)

lemma graded_correct_selected:
  assumes "\<forall>r \<in> set rs. \<exists>q uid. r = check_question q uid"
    and "filter (\<lambda>(q, s, c, ok). \<not> ok) rs = []"
  shows "\<forall>r \<in> set rs. \<exists>q a c. r = (q, Some a, c, True)"
proof
  fix r assume r: "r \<in> set rs"
  obtain q s c ok where t: "r = (q, s, c, ok)" by (cases r)
  from assms(2) r t have ok: "ok" by (auto simp: filter_empty_conv)
  from assms(1) r obtain q' uid where "r = check_question q' uid" by blast
  with t ok have "check_question q' uid = (q, s, c, True)" by simp
  from check_question_selected [OF this] t ok
  show "\<exists>q a c. r = (q, Some a, c, True)" by auto
qed

lemma feedback_loop_one_wrong:
  assumes "\<forall>r \<in> set rs. \<exists>q uid. r = check_question q uid"
    and "filter (\<lambda>(q, s, c, ok). \<not> ok) rs = [(question, selected, Some correct, False)]"
  shows "flash_cards (userdata (snd (feedback_loop E jc rs w))) =
           flash_cards (userdata w) @
             [\<lparr>fc_id = uuid4 E (uuid_calls w), fc_question = qq_text question,
               fc_answer = qa_text correct, fc_is_flipped = False\<rparr>]"
  using assms
proof (induction rs)
  case Nil
  then show ?case by simp
next
  case (Cons r rs)
  obtain q s c ok where t: "r = (q, s, c, ok)" by (cases r)
  from Cons.prems(1) have wf: "\<forall>r \<in> set rs. \<exists>q uid. r = check_question q uid" by simp
  show ?case
  proof (cases ok)
    case True
    from Cons.prems(1) obtain q' uid where "r = check_question q' uid" by auto
    with t True have "check_question q' uid = (q, s, c, True)" by simp
    from check_question_selected [OF this] obtain a where s: "s = Some a" by blast
    from Cons.prems(2) t True
    have "filter (\<lambda>(q, s, c, ok). \<not> ok) rs = [(question, selected, Some correct, False)]"
      by simp
    from Cons.IH [OF wf this] show ?thesis
      by (simp only: snd_feedback_loop_Cons t True s feedback_step_correct prod.case sum.case)
  next
    case False
    from Cons.prems(2) t False
    have r: "r = (question, selected, Some correct, False)"
      and rest: "filter (\<lambda>(q, s, c, ok). \<not> ok) rs = []"
      by simp_all
    obtain res w1 where st: "feedback_step E jc r w = (res, w1)" by (cases "feedback_step E jc r w")
    from feedback_step_incorrect_cards [of E jc question selected correct w] st r
    have cards: "flash_cards (userdata w1) =
           flash_cards (userdata w) @
             [\<lparr>fc_id = uuid4 E (uuid_calls w), fc_question = qq_text question,
               fc_answer = qa_text correct, fc_is_flipped = False\<rparr>]"
      by simp
    from feedback_loop_all_correct [OF graded_correct_selected [OF wf rest], of E jc w1]
    have loop: "snd (feedback_loop E jc rs w1) = w1" by auto
    have "snd (feedback_loop E jc (r # rs) w) = w1"
    proof (cases res)
      case (Inl e)
      then show ?thesis
        by (simp only: snd_feedback_loop_Cons st prod.case sum.case)
    next
      case (Inr f)
      then show ?thesis
        using loop by (simp only: snd_feedback_loop_Cons st prod.case sum.case)
    qed
    with cards show ?thesis by simp
  qed
qed

lemma feedback_loop_ok:
  assumes "\<forall>r \<in> set rs. \<exists>q uid. r = check_question q uid"
    and "\<forall>(q, s, c, ok) \<in> set rs. ok \<or> c \<noteq> None"
    and "room jc = Some rm" and "\<forall>call. perform_rpc E call = None"
  shows "\<exists>fs. fst (feedback_loop E jc rs w) = Inr fs"
  using assms(1,2)
proof (induction rs arbitrary: w)
  case Nil
  show ?case by simp
next
  case (Cons r rs)
  obtain q s c ok where t: "r = (q, s, c, ok)" by (cases r)
  have step: "\<exists>f. fst (feedback_step E jc r w) = Inr f"
  proof (cases ok)
    case True
    from Cons.prems(1) obtain q' uid where "r = check_question q' uid" by auto
    with t True have "check_question q' uid = (q, s, c, True)" by simp
    from check_question_selected [OF this] obtain a where "s = Some a" by blast
    then show ?thesis by (simp add: t True feedback_step_correct)
  next
    case False
    with Cons.prems(2) t obtain a where "c = Some a" by auto
    with feedback_step_incorrect_ok [OF assms(3,4), of q s a w] t False
    show ?thesis by simp
  qed
  then obtain f w1 where st: "feedback_step E jc r w = (Inr f, w1)"
    by (cases "feedback_step E jc r w") auto
  from Cons.prems have "\<forall>r \<in> set rs. \<exists>q uid. r = check_question q uid"
    and "\<forall>(q, s, c, ok) \<in> set rs. ok \<or> c \<noteq> None" by simp_all
  from Cons.IH [OF this, of w1] obtain fs where "fst (feedback_loop E jc rs w1) = Inr fs"
    by blast
  then show ?case
    by (cases "feedback_loop E jc rs w1") (simp add: st)
qed


subsection \<open>The handler\<close>

lemma handle_submit_quiz_total: "\<exists>reply. fst (handle_submit_quiz E jc p w) = Inr reply"
  by (cases "submit_quiz_body E jc p w") (auto simp: handle_submit_quiz_def split: sum.splits)

lemma handle_submit_quiz_userdata:
  assumes "json_loads E p = Inr (JObj kv)" and "truthy (dict_get kv ''id'' JNull)"
    and "check_quiz_answers (userdata w) (dict_get kv ''id'' JNull)
           (dict_get kv ''answers'' (JObj [])) = Inr rs"
    and "rs \<noteq> []"
  shows "userdata (snd (handle_submit_quiz E jc p w)) = userdata (snd (feedback_loop E jc rs w))"
  by (cases "feedback_loop E jc rs w")
     (auto simp: handle_submit_quiz_def submit_quiz_body_dict [OF assms(1,2)] assms(3,4) Let_def
           split: sum.splits option.splits)

lemma handle_submit_quiz_success:
  assumes "json_loads E p = Inr (JObj kv)" and "truthy (dict_get kv ''id'' JNull)"
    and "check_quiz_answers (userdata w) (dict_get kv ''id'' JNull)
           (dict_get kv ''answers'' (JObj [])) = Inr rs"
    and "rs \<noteq> []"
    and "\<forall>(q, s, c, ok) \<in> set rs. ok \<or> c \<noteq> None"
    and "room jc = Some rm"
    and "\<forall>call. perform_rpc E call = None"
    and "\<forall>t. session_say E t = None"
  shows "fst (handle_submit_quiz E jc p w) = Inr ''success''"
proof -
  from feedback_loop_ok [OF check_quiz_answers_results [OF assms(3)] assms(5,6,7), of w]
  obtain fs w1 where "feedback_loop E jc rs w = (Inr fs, w1)"
    by (cases "feedback_loop E jc rs w") auto
  then show ?thesis
    by (simp add: handle_submit_quiz_def submit_quiz_body_dict [OF assms(1,2)] assms(3,4,8) Let_def)
qed

lemma ex_submission_graded:
  "check_quiz_answers (userdata ex_world) (JStr ''open'') (JObj [(''Q3'', JStr ''C1'')]) =
     Inr [(ex_q3, Some ex_c1, None, False)]"
  by (simp add: check_quiz_answers_def get_quiz_def py_get_def dict_get_def check_question_def
      ex_world_def ex_defs)

lemma ex_submission_handled:
  "handle_submit_quiz (ex_env ex_submission) ex_ctx ''payload'' ex_world =
     (Inr (''error: '' @ str_of_error (no_attribute ''NoneType'' ''text'')), ex_world)"
proof -
  have l: "json_loads (ex_env ex_submission) ''payload'' =
             Inr (JObj [(''id'', JStr ''open''), (''answers'', JObj [(''Q3'', JStr ''C1'')])])"
    by (simp add: ex_env_def ex_submission_def)
  have t: "truthy (dict_get [(''id'', JStr ''open''), (''answers'', JObj [(''Q3'', JStr ''C1'')])] ''id'' JNull)"
    by (simp add: dict_get_def)
  have d: "dict_get [(''id'', JStr ''open''), (''answers'', JObj [(''Q3'', JStr ''C1'')])] ''id'' JNull = JStr ''open''"
    "dict_get [(''id'', JStr ''open''), (''answers'', JObj [(''Q3'', JStr ''C1'')])] ''answers'' (JObj []) = JObj [(''Q3'', JStr ''C1'')]"
    by (simp_all add: dict_get_def)
  show ?thesis
    by (simp add: handle_submit_quiz_def submit_quiz_body_dict [OF l t] d ex_submission_graded
        feedback_step_def)
qed

lemma ex_one_wrong_graded:
  "check_quiz_answers (userdata ex_world) (JStr ''quiz'')
     (JObj [(''Q1'', JStr ''A1''), (''Q2'', JStr ''B1'')]) =
     Inr [(ex_q1, Some ex_a1, Some ex_a1, True), (ex_q2, Some ex_b1, Some ex_b2, False)]"
  by (simp add: check_quiz_answers_def get_quiz_def py_get_def dict_get_def check_question_def
      ex_world_def ex_defs)

lemma ex_one_wrong_get:
  "dict_get [(''id'', JStr ''quiz''), (''answers'', JObj [(''Q1'', JStr ''A1''), (''Q2'', JStr ''B1'')])]
     ''id'' JNull = JStr ''quiz''"
  "dict_get [(''id'', JStr ''quiz''), (''answers'', JObj [(''Q1'', JStr ''A1''), (''Q2'', JStr ''B1'')])]
     ''answers'' (JObj []) = JObj [(''Q1'', JStr ''A1''), (''Q2'', JStr ''B1'')]"
  by (simp_all add: dict_get_def)

text \<open>
  Where every question graded incorrect has an option flagged correct, the flash card of
  each is created and the reply is \<open>success\<close>: the submission \<open>ex_one_wrong\<close> answers the second
  question of the quiz \<open>quiz\<close> wrongly, and the handler adds the card for it and succeeds.
\<close>

lemma ex_one_wrong_handled:
  "fst (handle_submit_quiz (ex_env ex_one_wrong) ex_ctx ''payload'' ex_world) = Inr ''success'' \<and>
   flash_cards (userdata (snd (handle_submit_quiz (ex_env ex_one_wrong) ex_ctx ''payload'' ex_world))) =
     [\<lparr>fc_id = ''u'', fc_question = ''spacing?'', fc_answer = ''kerning'', fc_is_flipped = False\<rparr>]"
proof -
  let ?kv = "[(''id'', JStr ''quiz''), (''answers'', JObj [(''Q1'', JStr ''A1''), (''Q2'', JStr ''B1'')])]"
  let ?rs = "[(ex_q1, Some ex_a1, Some ex_a1, True), (ex_q2, Some ex_b1, Some ex_b2, False)]"
  have 1: "json_loads (ex_env ex_one_wrong) ''payload'' = Inr (JObj ?kv)"
    by (simp add: ex_env_def ex_one_wrong_def)
  have 2: "truthy (dict_get ?kv ''id'' JNull)"
    by (simp add: ex_one_wrong_get)
  have 3: "check_quiz_answers (userdata ex_world) (dict_get ?kv ''id'' JNull)
             (dict_get ?kv ''answers'' (JObj [])) = Inr ?rs"
    by (simp only: ex_one_wrong_get ex_one_wrong_graded)
  have 4: "?rs \<noteq> []" by simp
  have 5: "\<forall>(q, s, c, ok) \<in> set ?rs. ok \<or> c \<noteq> None" by simp
  have 6: "room ex_ctx = Some \<lparr>remote_participants = [''client'']\<rparr>"
    by (simp add: ex_ctx_def)
  have 7: "\<forall>call. perform_rpc (ex_env ex_one_wrong) call = None"
    by (simp add: ex_env_def)
  have 8: "\<forall>t. session_say (ex_env ex_one_wrong) t = None"
    by (simp add: ex_env_def)
  have 9: "filter (\<lambda>(q, s, c, ok). \<not> ok) ?rs = [(ex_q2, Some ex_b1, Some ex_b2, False)]"
    by simp
  from handle_submit_quiz_success [OF 1 2 3 4 5 6 7 8]
    handle_submit_quiz_userdata [OF 1 2 3 4, of ex_ctx]
    feedback_loop_one_wrong [OF check_quiz_answers_results [OF 3] 9, of "ex_env ex_one_wrong" ex_ctx ex_world]
  show ?thesis
    by (simp add: ex_world_def ex_userdata_def ex_env_def ex_q2_def ex_b2_def)
qed

text \<open>
  Claim C2. The handler is to reply \<open>success\<close> to every payload that decodes, carries a quiz
  id and is graded to a non-empty list, and to let no exception out. No exception gets out
  (\<open>handle_submit_quiz_total\<close>), but the reply is not always \<open>success\<close>: the stored quiz \<open>open\<close>
  has one question, none of whose options is flagged correct; its submission decodes,
  carries the id and is graded to one tuple, and the handler, reading \<open>correct_answer.text\<close>
  of the absent correct answer, replies with the message of the \<open>AttributeError\<close>.
\<close>

theorem submit_quiz_unflagged_error:
  "json_loads (ex_env ex_submission) ''payload'' = Inr ex_submission \<and>
   py_get ex_submission ''id'' JNull = Inr (JStr ''open'') \<and>
   get_quiz (userdata ex_world) (JStr ''open'') = Some ex_unflagged \<and>
   check_quiz_answers (userdata ex_world) (JStr ''open'') (JObj [(''Q3'', JStr ''C1'')]) =
     Inr [(ex_q3, Some ex_c1, None, False)] \<and>
   fst (handle_submit_quiz (ex_env ex_submission) ex_ctx ''payload'' ex_world) =
     Inr (''error: '' @ str_of_error (no_attribute ''NoneType'' ''text'')) \<and>
   fst (handle_submit_quiz (ex_env ex_submission) ex_ctx ''payload'' ex_world) \<noteq> Inr ''success''"
  by (simp add: ex_submission_handled ex_submission_graded)
     (simp add: ex_env_def ex_submission_def py_get_def dict_get_def get_quiz_def ex_world_def
        ex_defs no_attribute_def quoted_def)

text \<open>
  Claim C3. A submission graded with exactly one question answered incorrectly is to add
  exactly one flash card, made of that question's text and the text of its option flagged
  correct. The handler does so where the question has such an option
  (\<open>feedback_loop_one_wrong\<close>). For the quiz \<open>open\<close> it does not: the submission is graded to
  one incorrect tuple whose correct answer is absent, reading \<open>correct_answer.text\<close> raises
  before \<open>add_flash_card\<close> is reached, and the store of flash cards is as empty after the
  handler as before.
\<close>

theorem submit_quiz_unflagged_no_card:
  "check_quiz_answers (userdata ex_world) (JStr ''open'') (JObj [(''Q3'', JStr ''C1'')]) =
     Inr [(ex_q3, Some ex_c1, None, False)] \<and>
   flash_cards (userdata ex_world) = [] \<and>
   flash_cards (userdata (snd (handle_submit_quiz (ex_env ex_submission) ex_ctx ''payload'' ex_world))) = []"
  by (simp add: ex_submission_handled ex_submission_graded)
     (simp add: ex_world_def ex_userdata_def)

end
